theory Spec2Isabelle
  imports Main
begin

section \<open>Python strings\<close>

text \<open>
  A Python \<^verbatim>\<open>str\<close> is modelled as a \<^typ>\<open>string\<close> whose characters are the code points
  below 256. On that range \<^verbatim>\<open>str.isspace\<close> holds of U+0009..U+000D, U+001C..U+0020,
  U+0085 and U+00A0, and \<^verbatim>\<open>str.lower\<close> moves A..Z and the Latin-1 capitals
  U+00C0..U+00DE (without the multiplication sign U+00D7) up by 32.
\<close>

definition isspace :: "char \<Rightarrow> bool" where
  "isspace c =
     (let n = (of_char c :: nat)
      in (9 \<le> n \<and> n \<le> 13) \<or> (28 \<le> n \<and> n \<le> 32) \<or> n = 133 \<or> n = 160)"

definition lower_char :: "char \<Rightarrow> char" where
  "lower_char c =
     (let n = (of_char c :: nat)
      in if (65 \<le> n \<and> n \<le> 90) \<or> (192 \<le> n \<and> n \<le> 222 \<and> n \<noteq> 215)
         then char_of (n + 32) else c)"

definition lower :: "string \<Rightarrow> string" where
  "lower s = map lower_char s"

definition lstrip :: "string \<Rightarrow> string" where
  "lstrip s = dropWhile isspace s"

definition rstrip :: "string \<Rightarrow> string" where
  "rstrip s = rev (dropWhile isspace (rev s))"

definition strip :: "string \<Rightarrow> string" where
  "strip s = rstrip (lstrip s)"

section \<open>ElementTree documents\<close>

text \<open>
  An \<^verbatim>\<open>xml.etree.ElementTree.Element\<close>: its tag in Clark notation
  (\<^verbatim>\<open>{namespace-uri}local-name\<close>), its \<^verbatim>\<open>text\<close> attribute (the selector \<open>elem_text\<close>;
  \<^verbatim>\<open>None\<close> when the element has no text before its first child) and its child elements
  in document order.
  Attributes and tails are never read by the parser module and are left out.
\<close>

datatype element = Element (tag: string) (elem_text: "string option") (children: "element list")

text \<open>\<^verbatim>\<open>Element.iter()\<close>: the element itself, then its descendants, in document order.\<close>

fun iter :: "element \<Rightarrow> element list" where
  "iter (Element t x cs) = Element t x cs # concat (map iter cs)"

text \<open>
  The three selectors that \<^verbatim>\<open>ElementPath.iterfind\<close> compiles the tokens of
  \<^verbatim>\<open>.//di:discinfo/di:title/di:name\<close> to. \<^verbatim>\<open>prepare_self\<close> passes the result on;
  \<^verbatim>\<open>prepare_descendant\<close> yields, for every element of the result, what \<^verbatim>\<open>iter\<close> yields
  with the wanted tag, the element itself left out (\<^verbatim>\<open>if e is not elem\<close>: it is the first
  that \<^verbatim>\<open>iter\<close> yields); \<^verbatim>\<open>prepare_child\<close> yields the children with the wanted tag.
\<close>

definition select_self :: "element list \<Rightarrow> element list" where
  "select_self result = result"

definition select_descendant :: "string \<Rightarrow> element list \<Rightarrow> element list" where
  "select_descendant tg result =
     concat (map (\<lambda>elem. filter (\<lambda>e. tag e = tg) (tl (iter elem))) result)"

definition select_child :: "string \<Rightarrow> element list \<Rightarrow> element list" where
  "select_child tg result =
     concat (map (\<lambda>elem. filter (\<lambda>e. tag e = tg) (children elem)) result)"

text \<open>\<^verbatim>\<open>next(it, None)\<close>: the first element that an iterator yields.\<close>

fun first :: "'a list \<Rightarrow> 'a option" where
  "first [] = None"
| "first (x # xs) = Some x"

text \<open>The prefix \<^verbatim>\<open>di\<close> of the namespace map \<^verbatim>\<open>{'di': 'urn:BDA:bdmv;discinfo'}\<close>.\<close>

definition di :: "string \<Rightarrow> string" where
  "di name = ''{urn:BDA:bdmv;discinfo}'' @ name"

text \<open>\<^verbatim>\<open>root.find('.//di:discinfo/di:title/di:name', ns)\<close>\<close>

definition find_title_node :: "element \<Rightarrow> element option" where
  "find_title_node root =
     first (select_child (di ''name'')
             (select_child (di ''title'')
               (select_descendant (di ''discinfo'') (select_self [root]))))"

text \<open>
  Lines 41 to 45 of the constructor: the title that is stored for a given outcome of the
  lookup, \<^verbatim>\<open>None\<close> standing for the attribute left at its initial value.
\<close>

definition title_of_node :: "element option \<Rightarrow> string option" where
  "title_of_node title_node =
     (case title_node of
        None \<Rightarrow> None
      | Some e \<Rightarrow>
          (case elem_text e of
             None \<Rightarrow> None
           | Some t \<Rightarrow>
               if t = [] then None
               else (let title = strip t
                     in if title \<noteq> [] \<and> lower title \<noteq> ''blu-ray'' then Some title
                        else None)))"

section \<open>The file system\<close>

text \<open>
  The file system is a tree. A regular file is represented by what \<^verbatim>\<open>ET.parse\<close> makes of
  it: it cannot be opened for reading, it is not well-formed XML, or it is a document with
  a root element. A directory has a flag telling whether the process may search and list
  it, and its entries in the order in which \<^verbatim>\<open>os.scandir\<close> enumerates them. Symbolic links
  are not modelled, and names are compared exactly, as on a case-sensitive file system.
  A path is the list of its components, resolved from the root of the tree; \<^verbatim>\<open>Path(directory) / "BDMV" / "META"\<close> appends components and \<^verbatim>\<open>str\<close> is the
  identity.
\<close>

datatype contents = Unreadable | Malformed | Document element

datatype node = File contents | Dir bool "(string \<times> node) list"

type_synonym path = "string list"

datatype errno = ENOENT | ENOTDIR | EACCES

datatype exn =
  FileNotFoundError | NotADirectoryError | PermissionError | IsADirectoryError | ParseError

text \<open>\<^verbatim>\<open>os.stat\<close>: path resolution, component by component.\<close>

fun stat :: "node \<Rightarrow> path \<Rightarrow> errno + node" where
  "stat n [] = Inr n"
| "stat (File c) (x # xs) = Inl ENOTDIR"
| "stat (Dir acc es) (x # xs) =
     (if \<not> acc then Inl EACCES
      else (case map_of es x of None \<Rightarrow> Inl ENOENT | Some n \<Rightarrow> stat n xs))"

text \<open>
  \<^verbatim>\<open>os.path.exists\<close> turns every \<^verbatim>\<open>OSError\<close> of \<^verbatim>\<open>os.stat\<close> into \<^verbatim>\<open>False\<close>.
  \<^verbatim>\<open>pathlib.Path.exists\<close> and \<^verbatim>\<open>pathlib.Path.is_dir\<close> (CPython 3.8 to 3.13) do so only for
  the error numbers of \<^verbatim>\<open>_IGNORED_ERRNOS\<close>, among them \<^verbatim>\<open>ENOENT\<close> and \<^verbatim>\<open>ENOTDIR\<close>; they
  re-raise the others, so that \<^verbatim>\<open>EACCES\<close> reaches the caller as \<^verbatim>\<open>PermissionError\<close>.
\<close>

definition os_path_exists :: "node \<Rightarrow> path \<Rightarrow> bool" where
  "os_path_exists fs p = (case stat fs p of Inl e \<Rightarrow> False | Inr n \<Rightarrow> True)"

definition Path_exists :: "node \<Rightarrow> path \<Rightarrow> exn + bool" where
  "Path_exists fs p =
     (case stat fs p of
        Inr n \<Rightarrow> Inr True
      | Inl EACCES \<Rightarrow> Inl PermissionError
      | Inl e \<Rightarrow> Inr False)"

definition Path_is_dir :: "node \<Rightarrow> path \<Rightarrow> exn + bool" where
  "Path_is_dir fs p =
     (case stat fs p of
        Inr (Dir acc es) \<Rightarrow> Inr True
      | Inr (File c) \<Rightarrow> Inr False
      | Inl EACCES \<Rightarrow> Inl PermissionError
      | Inl e \<Rightarrow> Inr False)"

text \<open>
  \<^verbatim>\<open>Path.rglob(name)\<close> for a name without wildcards is the selector \<^verbatim>\<open>**\<close> followed by a
  precise selector. The first visits the directory and then, in enumeration order, each
  of its subdirectories recursively; the second yields \<^verbatim>\<open>dir / name\<close> at each visited
  directory where that path exists. A directory that may not be searched raises
  \<^verbatim>\<open>PermissionError\<close> both from the existence test and from \<^verbatim>\<open>scandir\<close>; each selector
  catches it and yields nothing there.
\<close>

fun select_from :: "string \<Rightarrow> path \<Rightarrow> node \<Rightarrow> path list"
  and select_entries :: "string \<Rightarrow> path \<Rightarrow> (string \<times> node) list \<Rightarrow> path list" where
  "select_from name p (File c) = []"
| "select_from name p (Dir acc es) =
     (if \<not> acc then []
      else (if map_of es name \<noteq> None then [p @ [name]] else [])
           @ select_entries name p es)"
| "select_entries name p [] = []"
| "select_entries name p (e # es) =
     select_from name (p @ [fst e]) (snd e) @ select_entries name p es"

definition rglob :: "node \<Rightarrow> path \<Rightarrow> string \<Rightarrow> exn + path list" where
  "rglob fs p name =
     (case Path_is_dir fs p of
        Inl e \<Rightarrow> Inl e
      | Inr False \<Rightarrow> Inr []
      | Inr True \<Rightarrow>
          (case stat fs p of Inl e \<Rightarrow> Inr [] | Inr n \<Rightarrow> Inr (select_from name p n)))"

text \<open>\<^verbatim>\<open>ET.parse(filename).getroot()\<close>: open the file, parse it, return the root element.\<close>

definition ET_parse :: "node \<Rightarrow> path \<Rightarrow> exn + element" where
  "ET_parse fs p =
     (case stat fs p of
        Inl ENOENT \<Rightarrow> Inl FileNotFoundError
      | Inl ENOTDIR \<Rightarrow> Inl NotADirectoryError
      | Inl EACCES \<Rightarrow> Inl PermissionError
      | Inr (Dir acc es) \<Rightarrow> Inl IsADirectoryError
      | Inr (File Unreadable) \<Rightarrow> Inl PermissionError
      | Inr (File Malformed) \<Rightarrow> Inl ParseError
      | Inr (File (Document root)) \<Rightarrow> Inr root)"

section \<open>The parser module\<close>

record BDMTMetadata =
  filename :: path
  disc_title :: "string option"

text \<open>
  \<^verbatim>\<open>BDMTMetadata.__init__\<close>. The body of its \<^verbatim>\<open>try\<close> statement comes first; every exception
  of the model is an \<^verbatim>\<open>Exception\<close>, so the handler catches whatever the body raises.
\<close>

definition init_try :: "node \<Rightarrow> BDMTMetadata \<Rightarrow> exn + BDMTMetadata" where
  "init_try fs self =
     (case ET_parse fs (filename self) of
        Inl e \<Rightarrow> Inl e
      | Inr root \<Rightarrow>
          (case title_of_node (find_title_node root) of
             None \<Rightarrow> Inr self
           | Some title \<Rightarrow> Inr (self\<lparr>disc_title := Some title\<rparr>)))"

definition BDMTMetadata_init :: "node \<Rightarrow> path \<Rightarrow> exn + BDMTMetadata" where
  "BDMTMetadata_init fs fname =
     (if \<not> os_path_exists fs fname then Inl FileNotFoundError
      else (let self = \<lparr>filename = fname, disc_title = None\<rparr>
            in (case init_try fs self of
                  Inl e \<Rightarrow> Inr (self\<lparr>disc_title := None\<rparr>)
                | Inr self' \<Rightarrow> Inr self')))"

definition step1 :: path where
  "step1 = [''BDMV'', ''META'', ''bdmt_eng.xml'']"

definition step2 :: path where
  "step2 = [''META'', ''bdmt_eng.xml'']"

text \<open>
  \<^verbatim>\<open>find_bdmt_eng_file\<close> has no exception handler: what an existence test or \<^verbatim>\<open>rglob\<close>
  raises leaves the function.
\<close>

definition find_bdmt_eng_file :: "node \<Rightarrow> path \<Rightarrow> exn + path option" where
  "find_bdmt_eng_file fs directory =
     (case Path_exists fs (directory @ step1) of
        Inl e \<Rightarrow> Inl e
      | Inr True \<Rightarrow> Inr (Some (directory @ step1))
      | Inr False \<Rightarrow>
          (case Path_exists fs (directory @ step2) of
             Inl e \<Rightarrow> Inl e
           | Inr True \<Rightarrow> Inr (Some (directory @ step2))
           | Inr False \<Rightarrow>
               (case rglob fs directory ''bdmt_eng.xml'' of
                  Inl e \<Rightarrow> Inl e
                | Inr (p # ps) \<Rightarrow> Inr (Some p)
                | Inr [] \<Rightarrow>
                    (case rglob fs directory ''BDMT_ENG.XML'' of
                       Inl e \<Rightarrow> Inl e
                     | Inr (p # ps) \<Rightarrow> Inr (Some p)
                     | Inr [] \<Rightarrow> Inr None))))"

text \<open>\<^verbatim>\<open>get_disc_title\<close>: the body of the \<^verbatim>\<open>try\<close> statement, then the function with its handler.\<close>

definition get_disc_title_try :: "node \<Rightarrow> path \<Rightarrow> exn + string option" where
  "get_disc_title_try fs directory =
     (case find_bdmt_eng_file fs directory of
        Inl e \<Rightarrow> Inl e
      | Inr None \<Rightarrow> Inr None
      | Inr (Some bdmt_file) \<Rightarrow>
          (case BDMTMetadata_init fs bdmt_file of
             Inl e \<Rightarrow> Inl e
           | Inr metadata \<Rightarrow> Inr (disc_title metadata)))"

definition get_disc_title :: "node \<Rightarrow> path \<Rightarrow> exn + string option" where
  "get_disc_title fs directory =
     (case get_disc_title_try fs directory of
        Inl e \<Rightarrow> Inr None
      | Inr r \<Rightarrow> Inr r)"

section \<open>What the specification says\<close>

text \<open>
  The definitions of this section follow the words of the specification, not the code;
  the theorems compare them with the definitions above.

  Text normalisation and filtering rule: the direct text content, when present and
  non-empty after trimming, is the title, unless the trimmed text equals "blu-ray" under
  case-insensitive comparison.
\<close>

definition spec_title :: "string option \<Rightarrow> string option" where
  "spec_title txt =
     (case txt of
        None \<Rightarrow> None
      | Some t \<Rightarrow>
          if strip t = [] then None
          else if lower (strip t) = lower ''blu-ray'' then None
          else Some (strip t))"

text \<open>
  Element lookup: an element is below another when it is one of its children or below one
  of them; the path of the title is a \<^verbatim>\<open>discinfo\<close> element with a \<^verbatim>\<open>title\<close> child that has a
  \<^verbatim>\<open>name\<close> child, all three in the namespace of disc information.
\<close>

inductive below :: "element \<Rightarrow> element \<Rightarrow> bool" where
  child: "c \<in> set (children e) \<Longrightarrow> below e c"
| deeper: "c \<in> set (children e) \<Longrightarrow> below c x \<Longrightarrow> below e x"

definition title_path :: "element \<Rightarrow> element \<Rightarrow> element \<Rightarrow> bool" where
  "title_path d t n \<longleftrightarrow>
     tag d = di ''discinfo'' \<and> t \<in> set (children d) \<and> tag t = di ''title'' \<and>
     n \<in> set (children t) \<and> tag n = di ''name''"

text \<open>
  Locator: the entries of the subtree rooted at a directory, in traversal order: the
  entries of a directory, then the subtrees of its entries, one after the other. What lies
  in a directory that may not be read is not seen. The recursive search returns the first
  entry of the traversal whose file name is the wanted one.
\<close>

fun spec_walk :: "path \<Rightarrow> node \<Rightarrow> path list"
  and spec_walk_entries :: "path \<Rightarrow> (string \<times> node) list \<Rightarrow> path list" where
  "spec_walk p (File c) = []"
| "spec_walk p (Dir acc es) =
     (if acc then map (\<lambda>e. p @ [fst e]) es @ spec_walk_entries p es else [])"
| "spec_walk_entries p [] = []"
| "spec_walk_entries p (e # es) = spec_walk (p @ [fst e]) (snd e) @ spec_walk_entries p es"

definition spec_subtree :: "node \<Rightarrow> path \<Rightarrow> path list" where
  "spec_subtree fs d = (case stat fs d of Inl e \<Rightarrow> [] | Inr n \<Rightarrow> spec_walk d n)"

definition spec_search :: "node \<Rightarrow> path \<Rightarrow> string \<Rightarrow> path option" where
  "spec_search fs d name = first (filter (\<lambda>q. last q = name) (spec_subtree fs d))"

text \<open>The four steps in strict priority order, first match wins.\<close>

definition spec_locate :: "node \<Rightarrow> path \<Rightarrow> path option" where
  "spec_locate fs d =
     (if os_path_exists fs (d @ step1) then Some (d @ step1)
      else if os_path_exists fs (d @ step2) then Some (d @ step2)
      else (case spec_search fs d ''bdmt_eng.xml'' of
              Some q \<Rightarrow> Some q
            | None \<Rightarrow> spec_search fs d ''BDMT_ENG.XML''))"

section \<open>Refused existence tests\<close>

text \<open>
  The existence test of step 1, or that of step 2 when step 1 found nothing, is refused:
  a directory on the way to the candidate path may not be searched.
\<close>

definition denied :: "node \<Rightarrow> path \<Rightarrow> bool" where
  "denied fs d \<longleftrightarrow>
     stat fs (d @ step1) = Inl EACCES \<or>
     (\<not> os_path_exists fs (d @ step1) \<and> stat fs (d @ step2) = Inl EACCES)"

section \<open>Example documents and file systems\<close>

text \<open>
  A descriptor as discs carry it, the disc information below the root element
  \<^verbatim>\<open>disclib\<close>, and a document whose root element is the disc information itself.
\<close>

definition ex_doc :: element where
  "ex_doc =
     Element ''{urn:BDA:bdmv;disclib}disclib'' None
       [Element (di ''discinfo'') None
          [Element (di ''title'') None
             [Element (di ''name'') (Some '' Inception '') []]]]"

definition ex_rooted :: element where
  "ex_rooted =
     Element (di ''discinfo'') None
       [Element (di ''title'') None
          [Element (di ''name'') (Some ''MATRIX'') []]]"

definition ex_generic :: element where
  "ex_generic =
     Element ''{urn:BDA:bdmv;disclib}disclib'' None
       [Element (di ''discinfo'') None
          [Element (di ''title'') None
             [Element (di ''name'') (Some ''BLU-Ray'') []]]]"

definition ex_fs :: node where
  "ex_fs =
     Dir True
       [(''disc'', Dir True
           [(''extras'', Dir True [(''bdmt_eng.xml'', File Malformed)]),
            (''BDMV'', Dir True
               [(''META'', Dir True [(''bdmt_eng.xml'', File (Document ex_doc))])])]),
        (''mixed'', Dir True
           [(''BDMT_ENG.XML'', File (Document ex_doc)),
            (''private'', Dir False [(''bdmt_eng.xml'', File (Document ex_doc))]),
            (''a'', Dir True [(''b'', Dir True [(''bdmt_eng.xml'', File Malformed)])])]),
        (''locked'', Dir False
           [(''META'', Dir True [(''bdmt_eng.xml'', File (Document ex_doc))])]),
        (''folder'', Dir True
           [(''BDMV'', Dir True [(''META'', Dir True [(''bdmt_eng.xml'', Dir True [])])])]),
        (''rooted'', Dir True
           [(''META'', Dir True [(''bdmt_eng.xml'', File (Document ex_rooted))])]),
        (''generic'', Dir True
           [(''META'', Dir True [(''bdmt_eng.xml'', File (Document ex_generic))])]),
        (''empty'', Dir True [])]"

section \<open>Auxiliary facts\<close>

subsection \<open>Lists and strings\<close>

lemma first_append:
  "first (xs @ ys) = (case first xs of None \<Rightarrow> first ys | Some x \<Rightarrow> Some x)"
  by (cases xs) auto

lemma first_None: "first xs = None \<longleftrightarrow> xs = []"
  by (cases xs) auto

lemma first_Some_mem: "first xs = Some x \<Longrightarrow> x \<in> set xs"
  by (cases xs) auto

lemma rstrip_decomp: "s = rstrip s @ rev (takeWhile isspace (rev s))"
proof -
  have "rev (takeWhile isspace (rev s) @ dropWhile isspace (rev s)) = s" by simp
  then show ?thesis by (simp only: rev_append rstrip_def)
qed

lemma rstrip_last: "rstrip s \<noteq> [] \<Longrightarrow> \<not> isspace (last (rstrip s))"
  by (simp add: rstrip_def last_rev hd_dropWhile)

lemma rstrip_hd: "rstrip s \<noteq> [] \<Longrightarrow> hd (rstrip s) = hd s"
  using rstrip_decomp [of s] by (metis hd_append2)

lemma lstrip_hd: "lstrip s \<noteq> [] \<Longrightarrow> \<not> isspace (hd (lstrip s))"
  by (simp add: lstrip_def hd_dropWhile)

lemma rstrip_Nil_imp: "rstrip s \<noteq> [] \<Longrightarrow> s \<noteq> []"
  by (auto simp: rstrip_def)

lemma strip_ends:
  "strip s \<noteq> [] \<Longrightarrow> \<not> isspace (hd (strip s)) \<and> \<not> isspace (last (strip s))"
  unfolding strip_def
  using rstrip_hd [of "lstrip s"] rstrip_last [of "lstrip s"] lstrip_hd [of s]
    rstrip_Nil_imp [of "lstrip s"]
  by simp

lemma strip_decomp:
  "s = takeWhile isspace s @ strip s @ rev (takeWhile isspace (rev (lstrip s)))"
proof -
  have "s = takeWhile isspace s @ lstrip s" by (simp add: lstrip_def)
  moreover have "lstrip s = strip s @ rev (takeWhile isspace (rev (lstrip s)))"
    unfolding strip_def by (rule rstrip_decomp)
  ultimately show ?thesis by simp
qed

lemma lower_bluray: "lower ''blu-ray'' = ''blu-ray''"
  by code_simp

lemma strip_Nil: "strip [] = []"
  by (simp add: strip_def rstrip_def lstrip_def)

subsection \<open>Element lookup\<close>

lemma below_iff:
  "below e x \<longleftrightarrow> (\<exists>c\<in>set (children e). x = c \<or> below c x)"
  by (auto intro: below.intros elim: below.cases)

lemma set_iter: "set (iter e) = insert e {x. below e x}"
proof (induction e)
  case (Element t x cs)
  have "set (iter (Element t x cs)) = insert (Element t x cs) (\<Union>c\<in>set cs. set (iter c))"
    by simp
  also have "(\<Union>c\<in>set cs. set (iter c)) = (\<Union>c\<in>set cs. insert c {y. below c y})"
    using Element.IH by simp
  also have "\<dots> = {y. below (Element t x cs) y}"
    using below_iff [of "Element t x cs"] by auto
  finally show ?case .
qed

lemma set_tl_iter: "set (tl (iter e)) = {x. below e x}"
proof -
  have "set (tl (iter e)) = (\<Union>c\<in>set (children e). set (iter c))"
    by (cases e) simp
  also have "\<dots> = {x. below e x}"
    by (subst below_iff) (auto simp: set_iter)
  finally show ?thesis .
qed

lemma set_select_descendant:
  "set (select_descendant tg result) = {x. \<exists>e\<in>set result. below e x \<and> tag x = tg}"
  by (auto simp: select_descendant_def set_tl_iter)

lemma set_select_child:
  "set (select_child tg result) = {x. \<exists>e\<in>set result. x \<in> set (children e) \<and> tag x = tg}"
  by (auto simp: select_child_def)

lemma set_title_nodes:
  "set (select_child (di ''name'') (select_child (di ''title'')
          (select_descendant (di ''discinfo'') (select_self [root])))) =
     {n. \<exists>d t. below root d \<and> title_path d t n}"
  by (auto simp: set_select_child set_select_descendant select_self_def title_path_def)

lemma find_title_node_None:
  "find_title_node root = None \<longleftrightarrow> \<not> (\<exists>d t n. below root d \<and> title_path d t n)"
proof -
  have "find_title_node root = None \<longleftrightarrow>
          set (select_child (di ''name'') (select_child (di ''title'')
            (select_descendant (di ''discinfo'') (select_self [root])))) = {}"
    by (simp add: find_title_node_def first_None)
  then show ?thesis unfolding set_title_nodes by blast
qed

lemma find_title_node_Some:
  assumes "find_title_node root = Some n"
  shows "\<exists>d t. below root d \<and> title_path d t n"
proof -
  from assms have "n \<in> set (select_child (di ''name'') (select_child (di ''title'')
            (select_descendant (di ''discinfo'') (select_self [root]))))"
    unfolding find_title_node_def by (rule first_Some_mem)
  then show ?thesis unfolding set_title_nodes by blast
qed

lemma title_of_node_spec: "title_of_node (Some e) = spec_title (elem_text e)"
  by (auto simp: title_of_node_def spec_title_def lower_bluray strip_Nil Let_def
      split: option.splits)

lemma title_of_node_good:
  assumes "title_of_node x = Some t"
  shows "t \<noteq> [] \<and> \<not> isspace (hd t) \<and> \<not> isspace (last t) \<and> lower t \<noteq> lower ''blu-ray''"
proof -
  from assms obtain e s where t: "t = strip s" "strip s \<noteq> []" "lower (strip s) \<noteq> ''blu-ray''"
    by (auto simp: title_of_node_def Let_def split: option.splits if_splits)
  with strip_ends [of s] show ?thesis by (simp add: lower_bluray)
qed

subsection \<open>Path resolution and traversal\<close>

lemma stat_append:
  "stat fs (d @ q) = (case stat fs d of Inl e \<Rightarrow> Inl e | Inr n \<Rightarrow> stat n q)"
  by (induction fs d rule: stat.induct) (auto split: option.splits)

lemma first_filter_entries:
  "first (filter (\<lambda>q. last q = name) (map (\<lambda>e. p @ [fst e]) es)) =
     (if map_of es name \<noteq> None then Some (p @ [name]) else None)"
  by (induction es) auto

lemma first_select_walk:
  "first (select_from name p n) = first (filter (\<lambda>q. last q = name) (spec_walk p n))"
  "first (select_entries name p es) = first (filter (\<lambda>q. last q = name) (spec_walk_entries p es))"
proof (induction name p n and name p es rule: select_from_select_entries.induct)
  case (2 name p acc es)
  then show ?case
    by (simp add: first_append first_filter_entries)
next
  case (4 name p e es)
  then show ?case by (simp add: first_append split: option.splits)
qed simp_all

lemma stat_denied_prefix:
  "stat fs (d @ q) \<noteq> Inl EACCES \<Longrightarrow> stat fs d \<noteq> Inl EACCES"
  by (auto simp: stat_append)

lemma rglob_first:
  assumes "stat fs d \<noteq> Inl EACCES"
  shows "\<exists>ps. rglob fs d name = Inr ps \<and> first ps = spec_search fs d name"
proof (cases "stat fs d")
  case (Inl e)
  with assms show ?thesis
    by (cases e) (simp_all add: rglob_def Path_is_dir_def spec_search_def spec_subtree_def)
next
  case (Inr n)
  then show ?thesis
  proof (cases n)
    case (File c)
    with Inr show ?thesis
      by (simp add: rglob_def Path_is_dir_def spec_search_def spec_subtree_def)
  next
    case (Dir acc es)
    with Inr show ?thesis
      by (simp add: rglob_def Path_is_dir_def spec_search_def spec_subtree_def first_select_walk
          del: select_from.simps spec_walk.simps)
  qed
qed

lemma find_bdmt_eng_file_eq:
  "find_bdmt_eng_file fs d =
     (if denied fs d then Inl PermissionError else Inr (spec_locate fs d))"
proof (cases "stat fs (d @ step1)")
  case (Inr n)
  then show ?thesis
    by (simp add: find_bdmt_eng_file_def Path_exists_def denied_def spec_locate_def os_path_exists_def)
next
  case l1: (Inl e1)
  show ?thesis
  proof (cases "e1 = EACCES")
    case True
    with l1 show ?thesis
      by (simp add: find_bdmt_eng_file_def Path_exists_def denied_def)
  next
    case ne1: False
    with l1 have p1: "Path_exists fs (d @ step1) = Inr False"
      by (cases e1) (simp_all add: Path_exists_def)
    from l1 have x1: "\<not> os_path_exists fs (d @ step1)"
      by (simp add: os_path_exists_def)
    from l1 ne1 have "stat fs (d @ step1) \<noteq> Inl EACCES" by simp
    then have sd: "stat fs d \<noteq> Inl EACCES" by (rule stat_denied_prefix)
    show ?thesis
    proof (cases "stat fs (d @ step2)")
      case (Inr n)
      with p1 x1 l1 ne1 show ?thesis
        by (simp add: find_bdmt_eng_file_def Path_exists_def denied_def spec_locate_def
            os_path_exists_def)
    next
      case l2: (Inl e2)
      show ?thesis
      proof (cases "e2 = EACCES")
        case True
        with p1 x1 l1 l2 show ?thesis
          by (simp add: find_bdmt_eng_file_def Path_exists_def denied_def)
      next
        case ne2: False
        with l2 have p2: "Path_exists fs (d @ step2) = Inr False"
          by (cases e2) (simp_all add: Path_exists_def)
        from l2 have x2: "\<not> os_path_exists fs (d @ step2)"
          by (simp add: os_path_exists_def)
        from l1 l2 ne1 ne2 have nd: "\<not> denied fs d" by (simp add: denied_def)
        obtain ps where ps: "rglob fs d ''bdmt_eng.xml'' = Inr ps"
          "first ps = spec_search fs d ''bdmt_eng.xml''"
          using rglob_first [OF sd] by blast
        obtain qs where qs: "rglob fs d ''BDMT_ENG.XML'' = Inr qs"
          "first qs = spec_search fs d ''BDMT_ENG.XML''"
          using rglob_first [OF sd] by blast
        have "find_bdmt_eng_file fs d =
                Inr (case first ps of Some q \<Rightarrow> Some q | None \<Rightarrow> first qs)"
          using p1 p2 ps(1) qs(1)
          by (cases ps; cases qs) (simp_all add: find_bdmt_eng_file_def)
        with nd x1 x2 ps(2) qs(2) show ?thesis
          by (simp add: spec_locate_def split: option.splits)
      qed
    qed
  qed
qed

subsection \<open>The constructor\<close>

lemma BDMTMetadata_init_eq:
  "BDMTMetadata_init fs p =
     (if os_path_exists fs p
      then Inr \<lparr>filename = p,
                disc_title = (case ET_parse fs p of
                                Inl e \<Rightarrow> None
                              | Inr root \<Rightarrow> title_of_node (find_title_node root))\<rparr>
      else Inl FileNotFoundError)"
  by (auto simp: BDMTMetadata_init_def init_try_def Let_def split: sum.splits option.splits)

lemma ET_parse_Inr_exists: "ET_parse fs p = Inr root \<Longrightarrow> os_path_exists fs p"
  by (auto simp: ET_parse_def os_path_exists_def split: sum.splits errno.splits)

lemma strip_between:
  "\<exists>a b. t = a @ strip t @ b \<and> list_all isspace a \<and> list_all isspace b"
proof -
  have "list_all isspace (takeWhile isspace t)"
    by (simp add: list_all_iff) (meson set_takeWhileD)
  moreover have "list_all isspace (rev (takeWhile isspace (rev (lstrip t))))"
    by (simp add: list_all_iff) (meson set_takeWhileD)
  ultimately show ?thesis using strip_decomp [of t] by blast
qed


lemma get_disc_title_returns: "\<exists>r. get_disc_title fs d = Inr r"
  by (simp add: get_disc_title_def split: sum.splits)

lemma get_disc_title_try_raises:
  "get_disc_title_try fs d = Inl e \<Longrightarrow> get_disc_title fs d = Inr None"
  by (simp add: get_disc_title_def)


lemma spec_locate_missing:
  assumes "stat fs d = Inl ENOENT"
  shows "\<not> denied fs d" and "spec_locate fs d = None"
proof -
  from assms have s: "stat fs (d @ q) = Inl ENOENT" for q
    by (simp add: stat_append)
  then show "\<not> denied fs d" by (simp add: denied_def)
  from s assms show "spec_locate fs d = None"
    by (simp add: spec_locate_def os_path_exists_def spec_search_def spec_subtree_def)
qed


section \<open>The claims\<close>



text \<open>
  Claim C2. When the descriptor parses and the title element is found, the object is
  constructed with the title that the specification describes: the direct text of the
  element trimmed of leading and trailing whitespace, absent when the text is missing or
  empty after trimming, absent when the trimmed text equals \<^verbatim>\<open>blu-ray\<close> without regard to
  case. Trimming removes a run of whitespace at each end and nothing else, and what remains
  neither starts nor ends with whitespace.
\<close>

theorem disc_title_normalised:
  assumes "ET_parse fs p = Inr root" and "find_title_node root = Some e"
  shows "BDMTMetadata_init fs p = Inr \<lparr>filename = p, disc_title = spec_title (elem_text e)\<rparr> \<and>
         (\<forall>t. elem_text e = Some t \<longrightarrow>
            (\<exists>a b. t = a @ strip t @ b \<and> list_all isspace a \<and> list_all isspace b) \<and>
            (strip t \<noteq> [] \<longrightarrow> \<not> isspace (hd (strip t)) \<and> \<not> isspace (last (strip t))))"
proof -
  from assms(1) have "os_path_exists fs p" by (rule ET_parse_Inr_exists)
  with assms have "BDMTMetadata_init fs p =
      Inr \<lparr>filename = p, disc_title = spec_title (elem_text e)\<rparr>"
    by (simp add: BDMTMetadata_init_eq title_of_node_spec)
  then show ?thesis using strip_between strip_ends by blast
qed

theorem disc_title_normalised_witness:
  "ET_parse ex_fs [''disc'', ''BDMV'', ''META'', ''bdmt_eng.xml''] = Inr ex_doc \<and>
   find_title_node ex_doc = Some (Element (di ''name'') (Some '' Inception '') []) \<and>
   BDMTMetadata_init ex_fs [''disc'', ''BDMV'', ''META'', ''bdmt_eng.xml''] =
     Inr \<lparr>filename = [''disc'', ''BDMV'', ''META'', ''bdmt_eng.xml''],
          disc_title = Some ''Inception''\<rparr> \<and>
   ET_parse ex_fs [''generic'', ''META'', ''bdmt_eng.xml''] = Inr ex_generic \<and>
   find_title_node ex_generic = Some (Element (di ''name'') (Some ''BLU-Ray'') []) \<and>
   BDMTMetadata_init ex_fs [''generic'', ''META'', ''bdmt_eng.xml''] =
     Inr \<lparr>filename = [''generic'', ''META'', ''bdmt_eng.xml''], disc_title = None\<rparr>"
proof -
  have p1: "ET_parse ex_fs [''disc'', ''BDMV'', ''META'', ''bdmt_eng.xml''] = Inr ex_doc"
    by (simp add: ET_parse_def ex_fs_def)
  have n1: "find_title_node ex_doc = Some (Element (di ''name'') (Some '' Inception '') [])"
    by code_simp
  have t1: "spec_title (Some '' Inception '') = Some ''Inception''"
    by code_simp
  have p2: "ET_parse ex_fs [''generic'', ''META'', ''bdmt_eng.xml''] = Inr ex_generic"
    by (simp add: ET_parse_def ex_fs_def)
  have n2: "find_title_node ex_generic = Some (Element (di ''name'') (Some ''BLU-Ray'') [])"
    by code_simp
  have t2: "spec_title (Some ''BLU-Ray'') = None"
    by code_simp
  from disc_title_normalised [OF p1 n1] disc_title_normalised [OF p2 n2] p1 n1 t1 p2 n2 t2
  show ?thesis by simp
qed

text \<open>
  Claim C9. A title stored by the constructor or returned by \<^verbatim>\<open>get_disc_title\<close> is
  non-empty, neither starts nor ends with whitespace, and differs from \<^verbatim>\<open>blu-ray\<close> under
  case-insensitive comparison.
\<close>

theorem disc_title_invariant:
  "(BDMTMetadata_init fs p = Inr m \<and> disc_title m = Some t \<longrightarrow>
      t \<noteq> [] \<and> \<not> isspace (hd t) \<and> \<not> isspace (last t) \<and> lower t \<noteq> lower ''blu-ray'') \<and>
   (get_disc_title fs d = Inr (Some t) \<longrightarrow>
      t \<noteq> [] \<and> \<not> isspace (hd t) \<and> \<not> isspace (last t) \<and> lower t \<noteq> lower ''blu-ray'')"
proof -
  have init: "t \<noteq> [] \<and> \<not> isspace (hd t) \<and> \<not> isspace (last t) \<and> lower t \<noteq> lower ''blu-ray''"
    if "BDMTMetadata_init fs q = Inr m" and "disc_title m = Some t" for q m
  proof -
    from that obtain root where "title_of_node (find_title_node root) = Some t"
      by (auto simp: BDMTMetadata_init_eq split: if_splits sum.splits)
    then show ?thesis by (rule title_of_node_good)
  qed
  have "\<exists>q m. BDMTMetadata_init fs q = Inr m \<and> disc_title m = Some t"
    if "get_disc_title fs d = Inr (Some t)"
    using that
    by (auto simp: get_disc_title_def get_disc_title_try_def split: sum.splits option.splits)
  with init show ?thesis by blast
qed

theorem disc_title_invariant_witness:
  "BDMTMetadata_init ex_fs [''disc'', ''BDMV'', ''META'', ''bdmt_eng.xml''] =
     Inr \<lparr>filename = [''disc'', ''BDMV'', ''META'', ''bdmt_eng.xml''],
          disc_title = Some ''Inception''\<rparr> \<and>
   get_disc_title ex_fs [''disc''] = Inr (Some ''Inception'') \<and>
   ''Inception'' \<noteq> [] \<and> \<not> isspace (hd ''Inception'') \<and> \<not> isspace (last ''Inception'') \<and>
   lower ''Inception'' \<noteq> lower ''blu-ray''"
proof -
  have i: "BDMTMetadata_init ex_fs [''disc'', ''BDMV'', ''META'', ''bdmt_eng.xml''] =
     Inr \<lparr>filename = [''disc'', ''BDMV'', ''META'', ''bdmt_eng.xml''],
          disc_title = Some ''Inception''\<rparr>"
    by code_simp
  have g: "get_disc_title ex_fs [''disc''] = Inr (Some ''Inception'')"
    by code_simp
  from disc_title_invariant [of ex_fs "[''disc'', ''BDMV'', ''META'', ''bdmt_eng.xml'']"
      "\<lparr>filename = [''disc'', ''BDMV'', ''META'', ''bdmt_eng.xml''],
        disc_title = Some ''Inception''\<rparr>" "''Inception''" "[''disc'']"] i g
  show ?thesis by simp
qed



text \<open>
  Claim C10. Constructing \<^verbatim>\<open>BDMTMetadata\<close> on a path that is a directory passes the
  existence test, does not raise, and gives an object without title whose \<^verbatim>\<open>filename\<close> is
  the path given; on every path on which the constructor returns, \<^verbatim>\<open>filename\<close> is the path
  given.
\<close>

theorem BDMTMetadata_init_directory:
  "(stat fs p = Inr (Dir acc es) \<longrightarrow>
      os_path_exists fs p \<and>
      BDMTMetadata_init fs p = Inr \<lparr>filename = p, disc_title = None\<rparr>) \<and>
   (BDMTMetadata_init fs p = Inr m \<longrightarrow> filename m = p)"
  by (auto simp: BDMTMetadata_init_eq os_path_exists_def ET_parse_def split: if_splits)

theorem BDMTMetadata_init_directory_witness:
  "stat ex_fs [''folder'', ''BDMV'', ''META'', ''bdmt_eng.xml''] = Inr (Dir True []) \<and>
   BDMTMetadata_init ex_fs [''folder'', ''BDMV'', ''META'', ''bdmt_eng.xml''] =
     Inr \<lparr>filename = [''folder'', ''BDMV'', ''META'', ''bdmt_eng.xml''], disc_title = None\<rparr> \<and>
   filename \<lparr>filename = [''folder'', ''BDMV'', ''META'', ''bdmt_eng.xml''], disc_title = None\<rparr> =
     [''folder'', ''BDMV'', ''META'', ''bdmt_eng.xml'']"
proof -
  have a: "stat ex_fs [''folder'', ''BDMV'', ''META'', ''bdmt_eng.xml''] = Inr (Dir True [])"
    by (simp add: ex_fs_def)
  from BDMTMetadata_init_directory
    [of ex_fs "[''folder'', ''BDMV'', ''META'', ''bdmt_eng.xml'']" True "[]"] a
  show ?thesis by simp
qed

text \<open>
  Claim C3. \<^verbatim>\<open>get_disc_title\<close> never raises: it always returns a title or nothing. It returns
  nothing when the directory does not exist, when no candidate file is found, when the
  locator raises, when parsing the located file fails, and whenever anything in the body
  of its \<^verbatim>\<open>try\<close> statement raises, a failing constructor included.
\<close>

theorem get_disc_title_never_raises:
  "(\<exists>r. get_disc_title fs d = Inr r) \<and>
   (stat fs d = Inl ENOENT \<longrightarrow> get_disc_title fs d = Inr None) \<and>
   (find_bdmt_eng_file fs d = Inr None \<longrightarrow> get_disc_title fs d = Inr None) \<and>
   (find_bdmt_eng_file fs d = Inl e \<longrightarrow> get_disc_title fs d = Inr None) \<and>
   (find_bdmt_eng_file fs d = Inr (Some f) \<and> ET_parse fs f = Inl e \<longrightarrow>
      get_disc_title fs d = Inr None) \<and>
   (get_disc_title_try fs d = Inl e \<longrightarrow> get_disc_title fs d = Inr None)"
proof -
  have "get_disc_title fs d = Inr None" if "stat fs d = Inl ENOENT"
    using spec_locate_missing [OF that]
    by (simp add: get_disc_title_def get_disc_title_try_def find_bdmt_eng_file_eq)
  moreover have "get_disc_title fs d = Inr None" if "find_bdmt_eng_file fs d = Inr None"
    using that by (simp add: get_disc_title_def get_disc_title_try_def)
  moreover have "get_disc_title fs d = Inr None" if "find_bdmt_eng_file fs d = Inl e"
    using that by (simp add: get_disc_title_def get_disc_title_try_def)
  moreover have "get_disc_title fs d = Inr None"
    if "find_bdmt_eng_file fs d = Inr (Some f)" and "ET_parse fs f = Inl e"
    using that
    by (simp add: get_disc_title_def get_disc_title_try_def BDMTMetadata_init_eq)
  ultimately show ?thesis
    using get_disc_title_returns [of fs d] get_disc_title_try_raises [of fs d e] by blast
qed

theorem get_disc_title_never_raises_witness:
  "stat ex_fs [''nowhere''] = Inl ENOENT \<and> get_disc_title ex_fs [''nowhere''] = Inr None \<and>
   find_bdmt_eng_file ex_fs [''empty''] = Inr None \<and> get_disc_title ex_fs [''empty''] = Inr None \<and>
   find_bdmt_eng_file ex_fs [''locked''] = Inl PermissionError \<and>
   get_disc_title_try ex_fs [''locked''] = Inl PermissionError \<and>
   get_disc_title ex_fs [''locked''] = Inr None \<and>
   find_bdmt_eng_file ex_fs [''disc'', ''extras''] =
     Inr (Some [''disc'', ''extras'', ''bdmt_eng.xml'']) \<and>
   ET_parse ex_fs [''disc'', ''extras'', ''bdmt_eng.xml''] = Inl ParseError \<and>
   get_disc_title ex_fs [''disc'', ''extras''] = Inr None"
proof -
  have a: "stat ex_fs [''nowhere''] = Inl ENOENT"
    by (simp add: ex_fs_def)
  have b: "find_bdmt_eng_file ex_fs [''empty''] = Inr None"
    by code_simp
  have c: "find_bdmt_eng_file ex_fs [''locked''] = Inl PermissionError"
    by code_simp
  have c': "get_disc_title_try ex_fs [''locked''] = Inl PermissionError"
    by (simp add: get_disc_title_try_def c)
  have f: "find_bdmt_eng_file ex_fs [''disc'', ''extras''] =
     Inr (Some [''disc'', ''extras'', ''bdmt_eng.xml''])"
    by code_simp
  have g: "ET_parse ex_fs [''disc'', ''extras'', ''bdmt_eng.xml''] = Inl ParseError"
    by code_simp
  from get_disc_title_never_raises [of ex_fs "[''nowhere'']"] a
  have ra: "get_disc_title ex_fs [''nowhere''] = Inr None" by blast
  from get_disc_title_never_raises [of ex_fs "[''empty'']"] b
  have rb: "get_disc_title ex_fs [''empty''] = Inr None" by blast
  from get_disc_title_never_raises [of ex_fs "[''locked'']" PermissionError] c
  have rc: "get_disc_title ex_fs [''locked''] = Inr None" by blast
  from get_disc_title_never_raises
    [of ex_fs "[''disc'', ''extras'']" ParseError "[''disc'', ''extras'', ''bdmt_eng.xml'']"] f g
  have rf: "get_disc_title ex_fs [''disc'', ''extras''] = Inr None" by blast
  from a b c c' f g ra rb rc rf show ?thesis by blast
qed

text \<open>
  Claim C6, as the code has it. Steps 1 and 2 of \<^verbatim>\<open>find_bdmt_eng_file\<close> test the candidate
  paths with \<^verbatim>\<open>Path.exists\<close>: an entry of any kind at the exact path, a directory as well as
  a regular file, satisfies the test, and its path is returned.
\<close>

theorem find_bdmt_eng_file_any_entry:
  "(stat fs (d @ step1) = Inr n \<longrightarrow> find_bdmt_eng_file fs d = Inr (Some (d @ step1))) \<and>
   (Path_exists fs (d @ step1) = Inr False \<and> stat fs (d @ step2) = Inr n \<longrightarrow>
      find_bdmt_eng_file fs d = Inr (Some (d @ step2)))"
  by (simp add: find_bdmt_eng_file_def Path_exists_def)

theorem find_bdmt_eng_file_any_entry_witness:
  "stat ex_fs ([''folder''] @ step1) = Inr (Dir True []) \<and>
   find_bdmt_eng_file ex_fs [''folder''] = Inr (Some ([''folder''] @ step1)) \<and>
   Path_exists ex_fs ([''rooted''] @ step1) = Inr False \<and>
   stat ex_fs ([''rooted''] @ step2) = Inr (File (Document ex_rooted)) \<and>
   find_bdmt_eng_file ex_fs [''rooted''] = Inr (Some ([''rooted''] @ step2))"
proof -
  have a: "stat ex_fs ([''folder''] @ step1) = Inr (Dir True [])"
    by (simp add: ex_fs_def step1_def)
  have b: "Path_exists ex_fs ([''rooted''] @ step1) = Inr False"
    by (simp add: Path_exists_def ex_fs_def step1_def)
  have c: "stat ex_fs ([''rooted''] @ step2) = Inr (File (Document ex_rooted))"
    by (simp add: ex_fs_def step2_def)
  from find_bdmt_eng_file_any_entry [of ex_fs "[''folder'']" "Dir True []"] a
  have r1: "find_bdmt_eng_file ex_fs [''folder''] = Inr (Some ([''folder''] @ step1))"
    by blast
  from find_bdmt_eng_file_any_entry [of ex_fs "[''rooted'']" "File (Document ex_rooted)"] b c
  have r2: "find_bdmt_eng_file ex_fs [''rooted''] = Inr (Some ([''rooted''] @ step2))"
    by blast
  from a b c r1 r2 show ?thesis by blast
qed

text \<open>
  Claim C6, as stated, fails: the entry at the exact path of step 1 below \<^verbatim>\<open>folder\<close> is a
  directory, and \<^verbatim>\<open>find_bdmt_eng_file\<close> returns its path.
\<close>

theorem find_bdmt_eng_file_directory_counterexample:
  "stat ex_fs [''folder'', ''BDMV'', ''META'', ''bdmt_eng.xml''] = Inr (Dir True []) \<and>
   find_bdmt_eng_file ex_fs [''folder''] =
     Inr (Some [''folder'', ''BDMV'', ''META'', ''bdmt_eng.xml''])"
  by code_simp






text \<open>
  Claim C5, as the code has it. The lookup finds a \<^verbatim>\<open>name\<close> child of a \<^verbatim>\<open>title\<close> child of a
  \<^verbatim>\<open>discinfo\<close> element, all in the namespace \<^verbatim>\<open>urn:BDA:bdmv;discinfo\<close>, where the \<^verbatim>\<open>discinfo\<close>
  element lies anywhere below the root element of the document; the root element is where
  the search starts and is not itself a candidate. When no such path exists below the
  root, the lookup finds nothing and the title is absent.
\<close>

theorem find_title_node_below_root:
  "(find_title_node root = None \<longleftrightarrow> \<not> (\<exists>d t n. below root d \<and> title_path d t n)) \<and>
   (find_title_node root = Some n \<longrightarrow> (\<exists>d t. below root d \<and> title_path d t n)) \<and>
   (ET_parse fs p = Inr root \<and> \<not> (\<exists>d t n. below root d \<and> title_path d t n) \<longrightarrow>
      BDMTMetadata_init fs p = Inr \<lparr>filename = p, disc_title = None\<rparr>)"
proof -
  have "BDMTMetadata_init fs p = Inr \<lparr>filename = p, disc_title = None\<rparr>"
    if "ET_parse fs p = Inr root" and "\<not> (\<exists>d t n. below root d \<and> title_path d t n)"
  proof -
    from that(2) find_title_node_None [of root] have "find_title_node root = None"
      by blast
    with that(1) ET_parse_Inr_exists [OF that(1)] show ?thesis
      by (simp add: BDMTMetadata_init_eq title_of_node_def)
  qed
  with find_title_node_None [of root] find_title_node_Some [of root n] show ?thesis
    by blast
qed

theorem find_title_node_below_root_witness:
  "find_title_node ex_doc = Some (Element (di ''name'') (Some '' Inception '') []) \<and>
   (\<exists>d t. below ex_doc d \<and> title_path d t (Element (di ''name'') (Some '' Inception '') [])) \<and>
   find_title_node ex_rooted = None \<and>
   \<not> (\<exists>d t n. below ex_rooted d \<and> title_path d t n) \<and>
   ET_parse ex_fs [''rooted'', ''META'', ''bdmt_eng.xml''] = Inr ex_rooted \<and>
   BDMTMetadata_init ex_fs [''rooted'', ''META'', ''bdmt_eng.xml''] =
     Inr \<lparr>filename = [''rooted'', ''META'', ''bdmt_eng.xml''], disc_title = None\<rparr>"
proof -
  have a: "find_title_node ex_doc = Some (Element (di ''name'') (Some '' Inception '') [])"
    by code_simp
  have b: "find_title_node ex_rooted = None"
    by code_simp
  have c: "ET_parse ex_fs [''rooted'', ''META'', ''bdmt_eng.xml''] = Inr ex_rooted"
    by (simp add: ET_parse_def ex_fs_def)
  from find_title_node_below_root
    [of ex_doc "Element (di ''name'') (Some '' Inception '') []"] a
  have r1: "\<exists>d t. below ex_doc d \<and>
      title_path d t (Element (di ''name'') (Some '' Inception '') [])"
    by blast
  from find_title_node_below_root [of ex_rooted] b
  have r2: "\<not> (\<exists>d t n. below ex_rooted d \<and> title_path d t n)"
    by blast
  from find_title_node_below_root
    [of ex_rooted _ ex_fs "[''rooted'', ''META'', ''bdmt_eng.xml'']"] c r2
  have r3: "BDMTMetadata_init ex_fs [''rooted'', ''META'', ''bdmt_eng.xml''] =
     Inr \<lparr>filename = [''rooted'', ''META'', ''bdmt_eng.xml''], disc_title = None\<rparr>"
    by blast
  from a b c r1 r2 r3 show ?thesis by blast
qed

text \<open>
  Claim C5, as stated, fails where \<^verbatim>\<open>discinfo\<close> is the root element of the document: the
  path \<^verbatim>\<open>discinfo/title/name\<close> is there, with the text \<^verbatim>\<open>MATRIX\<close>, the lookup finds nothing
  and \<^verbatim>\<open>get_disc_title\<close> returns nothing.
\<close>

theorem find_title_node_root_counterexample:
  "title_path ex_rooted
     (Element (di ''title'') None [Element (di ''name'') (Some ''MATRIX'') []])
     (Element (di ''name'') (Some ''MATRIX'') []) \<and>
   find_title_node ex_rooted = None \<and>
   find_bdmt_eng_file ex_fs [''rooted''] = Inr (Some [''rooted'', ''META'', ''bdmt_eng.xml'']) \<and>
   ET_parse ex_fs [''rooted'', ''META'', ''bdmt_eng.xml''] = Inr ex_rooted \<and>
   get_disc_title ex_fs [''rooted''] = Inr None"
  by code_simp

end
